theory Spec2Isabelle
  imports Complex_Main "HOL-Library.Sublist" "HOL-Library.Multiset" "HOL-Library.Word"
begin

section \<open>JavaScript values used by the product controller\<close>

text \<open>
  The controller reads untyped request data (\<open>req.query\<close>, \<open>req.body\<close>), coerces some of it
  with \<open>Number\<close> and tests it for truthiness. A JavaScript number is modelled by \<open>jsnum\<close>:
  \<open>NaN\<close>, the two infinities, or a finite value kept as an exact rational. The rounding of
  IEEE doubles and the sign of zero are not modelled (\<open>-0\<close> is \<open>Fin 0\<close>; both are falsy).
\<close>

datatype jsnum = NaN | NegInf | PosInf | Fin rat

fun js_neg :: "jsnum \<Rightarrow> jsnum" where
  "js_neg NaN = NaN"
| "js_neg NegInf = PosInf"
| "js_neg PosInf = NegInf"
| "js_neg (Fin a) = Fin (- a)"

fun js_add :: "jsnum \<Rightarrow> jsnum \<Rightarrow> jsnum" where
  "js_add NaN y = NaN"
| "js_add x NaN = NaN"
| "js_add PosInf NegInf = NaN"
| "js_add NegInf PosInf = NaN"
| "js_add PosInf y = PosInf"
| "js_add x PosInf = PosInf"
| "js_add NegInf y = NegInf"
| "js_add x NegInf = NegInf"
| "js_add (Fin a) (Fin b) = Fin (a + b)"

definition js_sub :: "jsnum \<Rightarrow> jsnum \<Rightarrow> jsnum" where
  "js_sub x y = js_add x (js_neg y)"

fun js_sign :: "jsnum \<Rightarrow> int" where
  "js_sign NaN = 0"
| "js_sign NegInf = - 1"
| "js_sign PosInf = 1"
| "js_sign (Fin a) = (if a < 0 then - 1 else if a = 0 then 0 else 1)"

definition signed_inf :: "int \<Rightarrow> jsnum" where
  "signed_inf s = (if s = 0 then NaN else if 0 < s then PosInf else NegInf)"

fun js_mul :: "jsnum \<Rightarrow> jsnum \<Rightarrow> jsnum" where
  "js_mul NaN y = NaN"
| "js_mul x NaN = NaN"
| "js_mul (Fin a) (Fin b) = Fin (a * b)"
| "js_mul x y = signed_inf (js_sign x * js_sign y)"

fun js_div :: "jsnum \<Rightarrow> jsnum \<Rightarrow> jsnum" where
  "js_div NaN y = NaN"
| "js_div x NaN = NaN"
| "js_div (Fin a) (Fin b) = (if b = 0 then signed_inf (js_sign (Fin a)) else Fin (a / b))"
| "js_div (Fin a) y = Fin 0"
| "js_div x (Fin b) = signed_inf (js_sign x * (if b < 0 then - 1 else 1))"
| "js_div x y = NaN"

fun Math_ceil :: "jsnum \<Rightarrow> jsnum" where
  "Math_ceil (Fin a) = Fin (of_int \<lceil>a\<rceil>)"
| "Math_ceil x = x"

subsection \<open>String to number\<close>

text \<open>
  \<open>Number\<close> applied to a string follows the StringNumericLiteral grammar of ECMAScript:
  white space is stripped at both ends, the empty string is \<open>0\<close>, then comes either a
  binary, octal or hexadecimal integer (unsigned) or an optionally signed decimal literal
  (\<open>Infinity\<close>, digits with an optional fraction and exponent); anything else is \<open>NaN\<close>.
  A string is the list of its code units, of which the model has those below 256.
\<close>

definition is_space :: "char \<Rightarrow> bool" where
  "is_space c = ((of_char c :: nat) \<in> {9, 10, 11, 12, 13, 32, 160})"

definition trim :: "string \<Rightarrow> string" where
  "trim s = rev (dropWhile is_space (rev (dropWhile is_space s)))"

definition digit_of :: "char \<Rightarrow> nat option" where
  "digit_of c =
     (let n = (of_char c :: nat) in
      if 48 \<le> n \<and> n \<le> 57 then Some (n - 48)
      else if 97 \<le> n \<and> n \<le> 102 then Some (n - 87)
      else if 65 \<le> n \<and> n \<le> 70 then Some (n - 55)
      else None)"

fun digits_in :: "nat \<Rightarrow> nat \<Rightarrow> string \<Rightarrow> nat option" where
  "digits_in b acc [] = Some acc"
| "digits_in b acc (c # cs) =
     (case digit_of c of
        None \<Rightarrow> None
      | Some d \<Rightarrow> if d < b then digits_in b (acc * b + d) cs else None)"

definition digits_value :: "nat \<Rightarrow> string \<Rightarrow> nat option" where
  "digits_value b s = (if s = [] then None else digits_in b 0 s)"

definition radix_literal :: "nat \<Rightarrow> string \<Rightarrow> jsnum" where
  "radix_literal b s = (case digits_value b s of None \<Rightarrow> NaN | Some n \<Rightarrow> Fin (of_nat n))"

definition is_digit :: "char \<Rightarrow> bool" where
  "is_digit c = (48 \<le> (of_char c :: nat) \<and> (of_char c :: nat) \<le> 57)"

definition signed_integer :: "string \<Rightarrow> int option" where
  "signed_integer s =
     (case s of
        c # t \<Rightarrow>
          if c = CHR ''+'' then map_option int (digits_value 10 t)
          else if c = CHR ''-'' then map_option (\<lambda>n. - int n) (digits_value 10 t)
          else map_option int (digits_value 10 s)
      | [] \<Rightarrow> None)"

definition exponent_part :: "string \<Rightarrow> int option" where
  "exponent_part s =
     (case s of
        [] \<Rightarrow> Some 0
      | c # t \<Rightarrow> if c = CHR ''e'' \<or> c = CHR ''E'' then signed_integer t else None)"

definition scale10 :: "nat \<Rightarrow> int \<Rightarrow> rat" where
  "scale10 m k = (if 0 \<le> k then of_nat m * 10 ^ nat k else of_nat m / 10 ^ nat (- k))"

definition unsigned_decimal :: "string \<Rightarrow> jsnum" where
  "unsigned_decimal s =
     (if s = ''Infinity'' then PosInf
      else
        let ip = takeWhile is_digit s;
            r1 = dropWhile is_digit s;
            fp = (case r1 of c # t \<Rightarrow> if c = CHR ''.'' then takeWhile is_digit t else [] | [] \<Rightarrow> []);
            r2 = (case r1 of c # t \<Rightarrow> if c = CHR ''.'' then dropWhile is_digit t else r1 | [] \<Rightarrow> [])
        in if ip = [] \<and> fp = [] then NaN
           else case (digits_value 10 (ip @ fp), exponent_part r2) of
                  (Some m, Some e) \<Rightarrow> Fin (scale10 m (e - int (length fp)))
                | _ \<Rightarrow> NaN)"

definition decimal_literal :: "string \<Rightarrow> jsnum" where
  "decimal_literal s =
     (case s of
        c # t \<Rightarrow>
          if c = CHR ''+'' then unsigned_decimal t
          else if c = CHR ''-'' then js_neg (unsigned_decimal t)
          else unsigned_decimal s
      | [] \<Rightarrow> NaN)"

definition StringToNumber :: "string \<Rightarrow> jsnum" where
  "StringToNumber s =
     (let t = trim s in
      if t = [] then Fin 0
      else if take 2 t = ''0x'' \<or> take 2 t = ''0X'' then radix_literal 16 (drop 2 t)
      else if take 2 t = ''0o'' \<or> take 2 t = ''0O'' then radix_literal 8 (drop 2 t)
      else if take 2 t = ''0b'' \<or> take 2 t = ''0B'' then radix_literal 2 (drop 2 t)
      else decimal_literal t)"

subsection \<open>Values, coercion and truthiness\<close>

text \<open>
  A request value is \<open>undefined\<close> (the field is absent), \<open>null\<close>, a boolean, a number, a
  string, or an array or object. The controller never looks inside an array or object; it
  only coerces it, so \<open>JObj s\<close> carries the string \<open>s\<close> that the value's conversion to a
  primitive yields (\<open>[5]\<close> gives \<open>''5''\<close>, a plain object gives \<open>''[object Object]''\<close>).
\<close>

datatype jsval = JUndefined | JNull | JBool bool | JNum jsnum | JStr string | JObj string

fun Number :: "jsval \<Rightarrow> jsnum" where
  "Number JUndefined = NaN"
| "Number JNull = Fin 0"
| "Number (JBool b) = (if b then Fin 1 else Fin 0)"
| "Number (JNum n) = n"
| "Number (JStr s) = StringToNumber s"
| "Number (JObj s) = StringToNumber s"

fun truthy :: "jsval \<Rightarrow> bool" where
  "truthy JUndefined = False"
| "truthy JNull = False"
| "truthy (JBool b) = b"
| "truthy (JNum n) = (n \<noteq> NaN \<and> n \<noteq> Fin 0)"
| "truthy (JStr s) = (s \<noteq> [])"
| "truthy (JObj s) = True"

section \<open>Documents and the document store\<close>

text \<open>
  An identifier of the store is a value of 12 bytes, and \<open>toString\<close> renders it as 24
  hexadecimal digits. A review is embedded in its product. The product fields that
  \<open>updateProduct\<close> assigns from the request body hold whatever value the body has, so they
  are JavaScript values; \<open>rating\<close> is a number and \<open>numReviews\<close> a length.
\<close>

datatype objectId = ObjectId "96 word"

definition hex_char :: "nat \<Rightarrow> char" where
  "hex_char d = (if d < 10 then char_of (48 + d) else char_of (87 + d))"

fun hex_digits :: "nat \<Rightarrow> nat \<Rightarrow> string" where
  "hex_digits 0 n = []"
| "hex_digits (Suc k) n = hex_digits k (n div 16) @ [hex_char (n mod 16)]"

fun toString :: "objectId \<Rightarrow> string" where
  "toString (ObjectId w) = hex_digits 24 (unat w)"

record review =
  review_name :: string
  review_rating :: jsnum
  review_comment :: jsval
  review_user :: objectId

record product =
  doc_id :: objectId
  user :: objectId
  name :: jsval
  image_field :: jsval
  brand :: jsval
  category :: jsval
  description :: jsval
  reviews :: "review list"
  rating :: jsnum
  numReviews :: nat
  price :: jsval
  countInStock :: jsval

text \<open>
  The collection is the list of its documents in storage order. The request parameter
  \<open>req.params.id\<close> is a string, which \<open>findById\<close> casts to an identifier before it looks
  a document up. The parameter is modelled by what the cast makes of it: an identifier, or
  \<open>Malformed\<close> for a string that does not cast (the path \<open>/api/products/not-a-valid-id\<close>
  has one). On an identifier \<open>findById\<close> yields the first document that has it, or none;
  on a malformed parameter it throws the cast error, which is \<open>Inl CastError\<close>.
\<close>

type_synonym store = "product list"

datatype id_param = Identifier objectId | Malformed

datatype store_error = CastError

fun findById :: "store \<Rightarrow> id_param \<Rightarrow> store_error + product option" where
  "findById st (Identifier i) = Inr (find (\<lambda>p. doc_id p = i) st)"
| "findById st Malformed = Inl CastError"

text \<open>
  Modelled from the spec: the schema in \<open>models/productModel.js\<close> is not among the sources.
  Following the spec, \<open>save\<close> persists the whole document held in memory without
  validating it: it replaces the stored document of the same identifier, and inserts a
  document whose identifier is new.
\<close>

fun save :: "product \<Rightarrow> store \<Rightarrow> store" where
  "save p [] = [p]"
| "save p (q # qs) = (if doc_id q = doc_id p then p # qs else q # save p qs)"

subsection \<open>The name filter\<close>

text \<open>
  \<open>{ name: { $regex: keyword, $options: 'i' } }\<close> hands the keyword to the store's regular
  expression engine as a pattern. The model covers the patterns built from the characters
  of codes 1 to 127 that have no special meaning, each standing for itself in either case,
  and the dot, which stands for any character but a line break. For every other pattern,
  and for a dot against a name with a line break, the model gives no answer (\<open>None\<close>).
\<close>

datatype atom = Lit char | AnyChar

definition special :: "char \<Rightarrow> bool" where
  "special c = (c \<in> set (CHR 0x5C # ''^$.[]|()?*+{}''))"

definition parse_atom :: "char \<Rightarrow> atom option" where
  "parse_atom c =
     (if c = CHR ''.'' then Some AnyChar
      else if special c \<or> 128 \<le> (of_char c :: nat) \<or> (of_char c :: nat) = 0 then None
      else Some (Lit c))"

fun parse_pattern :: "string \<Rightarrow> atom list option" where
  "parse_pattern [] = Some []"
| "parse_pattern (c # cs) =
     (case parse_atom c of
        None \<Rightarrow> None
      | Some a \<Rightarrow> map_option ((#) a) (parse_pattern cs))"

definition to_lower :: "char \<Rightarrow> char" where
  "to_lower c =
     (if 65 \<le> (of_char c :: nat) \<and> (of_char c :: nat) \<le> 90
      then char_of ((of_char c :: nat) + 32) else c)"

definition line_break :: "char \<Rightarrow> bool" where
  "line_break c = (c = CHR 0x0A \<or> c = CHR 0x0D)"

fun atom_matches :: "atom \<Rightarrow> char \<Rightarrow> bool" where
  "atom_matches (Lit a) c = (to_lower a = to_lower c)"
| "atom_matches AnyChar c = (\<not> line_break c)"

fun match_here :: "atom list \<Rightarrow> string \<Rightarrow> bool" where
  "match_here [] s = True"
| "match_here (a # as) [] = False"
| "match_here (a # as) (c # cs) = (atom_matches a c \<and> match_here as cs)"

fun search :: "atom list \<Rightarrow> string \<Rightarrow> bool" where
  "search as [] = match_here as []"
| "search as (c # cs) = (match_here as (c # cs) \<or> search as cs)"

definition regex_test :: "atom list \<Rightarrow> string \<Rightarrow> bool option" where
  "regex_test as s =
     (if AnyChar \<in> set as \<and> list_ex line_break s then None else Some (search as s))"

text \<open>A regular expression matches string fields only.\<close>

fun name_matches :: "atom list \<Rightarrow> product \<Rightarrow> bool option" where
  "name_matches as p =
     (case name p of
        JStr s \<Rightarrow> regex_test as s
      | JObj s \<Rightarrow> None
      | _ \<Rightarrow> Some False)"

fun filter_opt :: "('a \<Rightarrow> bool option) \<Rightarrow> 'a list \<Rightarrow> 'a list option" where
  "filter_opt f [] = Some []"
| "filter_opt f (x # xs) =
     (case f x of
        None \<Rightarrow> None
      | Some b \<Rightarrow>
          (case filter_opt f xs of
             None \<Rightarrow> None
           | Some ys \<Rightarrow> Some (if b then x # ys else ys)))"

datatype query_filter = MatchAll | NameRegex jsval

fun Product_find :: "query_filter \<Rightarrow> store \<Rightarrow> product list option" where
  "Product_find MatchAll st = Some st"
| "Product_find (NameRegex (JStr pat)) st =
     (case parse_pattern pat of
        None \<Rightarrow> None
      | Some as \<Rightarrow> filter_opt (name_matches as) st)"
| "Product_find (NameRegex v) st = None"

definition Product_count :: "query_filter \<Rightarrow> store \<Rightarrow> nat option" where
  "Product_count f st = map_option length (Product_find f st)"

text \<open>
  The cursor skips before it limits, in whatever order the two options were set. The skip
  is a number computed from the page; the model covers the non-negative integers.
\<close>

fun skip_count :: "jsnum \<Rightarrow> nat option" where
  "skip_count (Fin q) = (if 0 \<le> q \<and> q = of_int \<lfloor>q\<rfloor> then Some (nat \<lfloor>q\<rfloor>) else None)"
| "skip_count x = None"

definition cursor_skip :: "jsnum \<Rightarrow> product list \<Rightarrow> product list option" where
  "cursor_skip n docs = map_option (\<lambda>k. drop k docs) (skip_count n)"

text \<open>
  Sorting by \<open>{ rating: -1 }\<close> orders numbers as the store compares them: \<open>NaN\<close> below
  every number, then \<open>-Infinity\<close>, the finite numbers and \<open>Infinity\<close>. Documents with equal
  rating stay in storage order.
\<close>

fun rank :: "jsnum \<Rightarrow> nat" where
  "rank NaN = 0"
| "rank NegInf = 1"
| "rank (Fin a) = 2"
| "rank PosInf = 3"

fun finite_part :: "jsnum \<Rightarrow> rat" where
  "finite_part (Fin a) = a"
| "finite_part x = 0"

definition num_le :: "jsnum \<Rightarrow> jsnum \<Rightarrow> bool" where
  "num_le x y = (rank x < rank y \<or> (rank x = rank y \<and> finite_part x \<le> finite_part y))"

fun insert_desc :: "product \<Rightarrow> product list \<Rightarrow> product list" where
  "insert_desc p [] = [p]"
| "insert_desc p (q # qs) =
     (if num_le (rating q) (rating p) then p # q # qs else q # insert_desc p qs)"

fun sort_rating_desc :: "product list \<Rightarrow> product list" where
  "sort_rating_desc [] = []"
| "sort_rating_desc (p # ps) = insert_desc p (sort_rating_desc ps)"

section \<open>The request handlers\<close>

text \<open>
  A handler either sends a JSON body with a status (200 unless it sets another), or it
  sets a status and throws an error with a message, or an error of the store leaves the
  handler uncaught, with no status set.
  Modelled from the spec: the error middleware of \<open>middleware/errorMiddleware.js\<close> is not
  among the sources; by the spec it answers with the status set before the throw and the
  message of the error, which \<open>Threw\<close> records, and with status 500 when no status was
  set, which is the case of \<open>Uncaught\<close>.
\<close>

datatype 'a outcome = Json nat 'a | Threw nat string | Uncaught store_error

record query =
  pageNumber :: jsval
  keyword :: jsval

record listing =
  products :: "product list"
  page :: jsnum
  pages :: jsnum

definition pageSize :: nat where
  "pageSize = 10"

definition page_of :: "jsval \<Rightarrow> jsnum" where
  "page_of v = (let n = Number v in if truthy (JNum n) then n else Fin 1)"

definition keyword_filter :: "jsval \<Rightarrow> query_filter" where
  "keyword_filter v = (if truthy v then NameRegex v else MatchAll)"

definition getProducts :: "store \<Rightarrow> query \<Rightarrow> listing outcome option" where
  "getProducts st q =
     (let page = page_of (pageNumber q);
          keyword = keyword_filter (keyword q)
      in case Product_count keyword st of
           None \<Rightarrow> None
         | Some count' \<Rightarrow>
             (case Product_find keyword st of
                None \<Rightarrow> None
              | Some docs \<Rightarrow>
                  (case cursor_skip (js_mul (Fin (of_nat pageSize)) (js_sub page (Fin 1))) docs of
                     None \<Rightarrow> None
                   | Some rest \<Rightarrow>
                       Some (Json 200
                         \<lparr>products = take pageSize rest,
                          page = page,
                          pages = Math_ceil (js_div (Fin (of_nat count')) (Fin (of_nat pageSize)))\<rparr>))))"

definition getProductById :: "store \<Rightarrow> id_param \<Rightarrow> product outcome" where
  "getProductById st i =
     (case findById st i of
        Inl e \<Rightarrow> Uncaught e
      | Inr (Some product) \<Rightarrow> Json 200 product
      | Inr None \<Rightarrow> Threw 404 ''Product not found'')"

record update_body =
  body_name :: jsval
  body_price :: jsval
  body_description :: jsval
  body_image :: jsval
  body_brand :: jsval
  body_category :: jsval
  body_countInStock :: jsval

definition updateProduct :: "store \<Rightarrow> id_param \<Rightarrow> update_body \<Rightarrow> product outcome \<times> store" where
  "updateProduct st i body =
     (case findById st i of
        Inl e \<Rightarrow> (Uncaught e, st)
      | Inr (Some product) \<Rightarrow>
          (let updatedProduct = product
                 \<lparr>name := body_name body,
                  price := body_price body,
                  description := body_description body,
                  image_field := body_image body,
                  brand := body_brand body,
                  countInStock := body_countInStock body\<rparr>
           in (Json 200 updatedProduct, save updatedProduct st))
      | Inr None \<Rightarrow> (Threw 404 ''Product not found'', st))"

record auth_user =
  user_id :: objectId
  user_name :: string

record review_body =
  body_rating :: jsval
  body_comment :: jsval

definition reduce_ratings :: "review list \<Rightarrow> jsnum" where
  "reduce_ratings rs = foldl (\<lambda>acc item. js_add (review_rating item) acc) (Fin 0) rs"

definition createProductReview ::
  "store \<Rightarrow> id_param \<Rightarrow> auth_user \<Rightarrow> review_body \<Rightarrow> string outcome \<times> store" where
  "createProductReview st i usr body =
     (case findById st i of
        Inl e \<Rightarrow> (Uncaught e, st)
      | Inr (Some product) \<Rightarrow>
          (case find (\<lambda>r. toString (review_user r) = toString (user_id usr)) (reviews product) of
             Some alreadyReviewed \<Rightarrow> (Threw 400 ''Product already reviewed'', st)
           | None \<Rightarrow>
               (let review = \<lparr>review_name = user_name usr,
                              review_rating = Number (body_rating body),
                              review_comment = body_comment body,
                              review_user = user_id usr\<rparr>;
                    pushed = reviews product @ [review];
                    product' = product
                      \<lparr>reviews := pushed,
                       numReviews := length pushed,
                       rating := js_div (reduce_ratings pushed) (Fin (of_nat (length pushed)))\<rparr>
                in (Json 201 ''Review added'', save product' st)))
      | Inr None \<Rightarrow> (Threw 404 ''Product not found'', st))"

definition getTopProducts :: "store \<Rightarrow> product list outcome" where
  "getTopProducts st = Json 200 (take 3 (sort_rating_desc st))"

section \<open>Notions the properties are stated with\<close>

text \<open>
  The sum of the ratings of a list of reviews and their mean, as the specification words
  them, independently of the order in which the handler's \<open>reduce\<close> adds them up.
\<close>

fun sum_ratings :: "review list \<Rightarrow> jsnum" where
  "sum_ratings [] = Fin 0"
| "sum_ratings (r # rs) = js_add (review_rating r) (sum_ratings rs)"

definition mean_rating :: "review list \<Rightarrow> jsnum" where
  "mean_rating rs = js_div (sum_ratings rs) (Fin (of_nat (length rs)))"

text \<open>
  A name contains a keyword as a case-insensitive substring when the keyword, in lower
  case, is a contiguous part of the name in lower case. An ordinary character is one that
  a pattern takes for itself.
\<close>

definition name_contains :: "string \<Rightarrow> product \<Rightarrow> bool" where
  "name_contains kw p =
     (case name p of
        JStr s \<Rightarrow> sublist (map to_lower kw) (map to_lower s)
      | _ \<Rightarrow> False)"

definition ordinary :: "char \<Rightarrow> bool" where
  "ordinary c = (\<not> special c \<and> 0 < (of_char c :: nat) \<and> (of_char c :: nat) < 128)"

definition is_object :: "jsval \<Rightarrow> bool" where
  "is_object v = (case v of JObj s \<Rightarrow> True | _ \<Rightarrow> False)"

text \<open>
  A document matches a request parameter when the parameter casts to the identifier of the
  document; no document matches a malformed parameter.
\<close>

fun id_matches :: "id_param \<Rightarrow> product \<Rightarrow> bool" where
  "id_matches (Identifier i) p = (doc_id p = i)"
| "id_matches Malformed p = False"

text \<open>Descending order of ratings, as the sort compares them.\<close>

definition rating_ge :: "product \<Rightarrow> product \<Rightarrow> bool" where
  "rating_ge a b = num_le (rating b) (rating a)"

subsection \<open>Example documents\<close>

definition item :: "96 word \<Rightarrow> string \<Rightarrow> jsnum \<Rightarrow> product" where
  "item i n r =
     \<lparr>doc_id = ObjectId i, user = ObjectId 0xAD, name = JStr n,
      image_field = JStr ''/images/sample.jpg'', brand = JStr ''Sample brand'',
      category = JStr ''Sample category'', description = JStr ''Sample description'',
      reviews = [], rating = r, numReviews = 0, price = JNum (Fin 0),
      countInStock = JNum (Fin 0)\<rparr>"

definition opinion :: "string \<Rightarrow> 96 word \<Rightarrow> rat \<Rightarrow> review" where
  "opinion n u r =
     \<lparr>review_name = n, review_rating = Fin r, review_comment = JStr ''fine'',
      review_user = ObjectId u\<rparr>"

definition shoe :: product where
  "shoe = item 1 ''Shoe'' (Fin 0)"

definition hat :: product where
  "hat = (item 2 ''Hat'' (Fin (9 / 2)))
           \<lparr>reviews := [opinion ''ann'' 0xA1 4, opinion ''bob'' 0xB0 5], numReviews := 2\<rparr>"

definition shirts :: store where
  "shirts = map (\<lambda>k. item (of_nat (100 + k)) (''Shirt '' @ [char_of (65 + k)]) (Fin (of_nat k))) [0..<25]"

definition sample_update :: update_body where
  "sample_update =
     \<lparr>body_name = JUndefined, body_price = JNum (Fin 12),
      body_description = JStr ''Leather'', body_image = JStr ''/images/shoe.jpg'',
      body_brand = JStr ''Acme'', body_category = JStr ''Footwear'',
      body_countInStock = JNum (Fin 3)\<rparr>"

section \<open>Arithmetic and store lemmas\<close>

lemma js_add_commute: "js_add a b = js_add b a"
  by (cases a; cases b; simp)

lemma js_add_assoc: "js_add (js_add a b) c = js_add a (js_add b c)"
  by (cases a; cases b; cases c; simp)

lemma js_add_left_commute: "js_add a (js_add b c) = js_add b (js_add a c)"
  by (metis js_add_assoc js_add_commute)

lemma foldl_ratings: "foldl (\<lambda>acc item. js_add (review_rating item) acc) a rs = js_add (sum_ratings rs) a"
proof (induction rs arbitrary: a)
  case Nil
  show ?case by (cases a) simp_all
next
  case (Cons r rs)
  have "js_add (sum_ratings rs) (js_add (review_rating r) a) =
        js_add (js_add (review_rating r) (sum_ratings rs)) a"
    by (metis js_add_assoc js_add_commute)
  then show ?case by (simp add: Cons.IH)
qed

lemma js_add_zero: "js_add x (Fin 0) = x"
  by (cases x) simp_all

lemma reduce_ratings_sum: "reduce_ratings rs = sum_ratings rs"
  by (simp add: reduce_ratings_def foldl_ratings js_add_zero)

lemma sum_ratings_append: "sum_ratings (rs @ [r]) = js_add (review_rating r) (sum_ratings rs)"
  by (induction rs) (simp_all add: js_add_zero js_add_left_commute)

lemma of_char_hex_char: "d < 16 \<Longrightarrow> (of_char (hex_char d) :: nat) = (if d < 10 then 48 + d else 87 + d)"
  by (simp add: hex_char_def of_char_of)

lemma hex_char_inj:
  assumes "a < 16" and "b < 16" and "hex_char a = hex_char b"
  shows "a = b"
proof -
  from assms(3) have "(of_char (hex_char a) :: nat) = of_char (hex_char b)" by simp
  with assms(1,2) show ?thesis
    by (simp add: of_char_hex_char split: if_splits)
qed

lemma length_hex_digits: "length (hex_digits k n) = k"
  by (induction k arbitrary: n) simp_all

lemma hex_digits_inj: "hex_digits k n = hex_digits k m \<Longrightarrow> n mod 16 ^ k = m mod 16 ^ k"
proof (induction k arbitrary: n m)
  case 0
  show ?case by simp
next
  case (Suc k)
  from Suc.prems have hd: "hex_digits k (n div 16) = hex_digits k (m div 16)"
    and lst: "hex_char (n mod 16) = hex_char (m mod 16)"
    by (simp_all add: length_hex_digits)
  from lst have low: "n mod 16 = m mod 16"
    by (intro hex_char_inj) simp_all
  from Suc.IH [OF hd] have high: "n div 16 mod 16 ^ k = m div 16 mod 16 ^ k" .
  have "n mod (16 * 16 ^ k) = 16 * (n div 16 mod 16 ^ k) + n mod 16"
    by (rule mod_mult2_eq)
  moreover have "m mod (16 * 16 ^ k) = 16 * (m div 16 mod 16 ^ k) + m mod 16"
    by (rule mod_mult2_eq)
  ultimately show ?case using low high by simp
qed

lemma toString_inj: "toString a = toString b \<Longrightarrow> a = b"
proof (cases a; cases b)
  fix v w :: "96 word"
  assume a: "a = ObjectId v" and b: "b = ObjectId w" and eq: "toString a = toString b"
  from eq a b have "unat v mod 16 ^ 24 = unat w mod 16 ^ 24"
    by (intro hex_digits_inj) simp
  moreover have "unat v < 16 ^ 24" "unat w < 16 ^ 24"
    using unsigned_less [of v, where ?'a = nat] unsigned_less [of w, where ?'a = nat] by simp_all
  ultimately have "unat v = unat w" by simp
  then show "a = b" using a b by (simp add: word_unat_eq_iff)
qed

lemma findById_found: "findById st i = Inr (Some p) \<Longrightarrow> i = Identifier (doc_id p)"
proof (cases i)
  case (Identifier j)
  assume "findById st i = Inr (Some p)"
  with Identifier have "find (\<lambda>p. doc_id p = j) st = Some p" by simp
  then have "doc_id p = j" by (induction st) (auto split: if_splits)
  with Identifier show ?thesis by simp
next
  case Malformed
  assume "findById st i = Inr (Some p)"
  with Malformed show ?thesis by simp
qed

lemma findById_mem: "findById st i = Inr (Some p) \<Longrightarrow> p \<in> set st"
proof (cases i)
  case (Identifier j)
  assume "findById st i = Inr (Some p)"
  with Identifier have "find (\<lambda>p. doc_id p = j) st = Some p" by simp
  then show ?thesis by (induction st) (auto split: if_splits)
next
  case Malformed
  assume "findById st i = Inr (Some p)"
  with Malformed show ?thesis by simp
qed

lemma findById_None:
  "(findById st (Identifier j) = Inr None) = (\<forall>p\<in>set st. doc_id p \<noteq> j)"
  by (induction st) auto

lemma findById_save: "findById (save p st) (Identifier (doc_id p)) = Inr (Some p)"
  by (induction st) auto

lemma findById_saved:
  assumes "findById st i = Inr (Some p)" and "doc_id p' = doc_id p"
  shows "findById (save p' st) i = Inr (Some p')"
  using findById_found [OF assms(1)] findById_save [of p' st] assms(2) by simp

lemma ceiling_tenth: "\<lceil>(of_nat m :: rat) / 10\<rceil> = int ((m + 9) div 10)"
proof -
  have "\<lceil>(of_int (int m) :: rat) / of_int 10\<rceil> = - ((- int m) div 10)"
    unfolding ceiling_def by (metis floor_divide_of_int_eq minus_divide_left of_int_minus)
  also have "\<dots> = int ((m + 9) div 10)" by (simp add: zdiv_int)
  finally show ?thesis by simp
qed

lemma skip_page: "1 \<le> n \<Longrightarrow> skip_count (js_mul (Fin (of_nat pageSize)) (js_sub (Fin (of_nat n)) (Fin 1))) = Some (pageSize * (n - 1))"
proof -
  assume n: "1 \<le> n"
  have "(of_nat pageSize :: rat) * (of_nat n + - 1) = of_nat (pageSize * (n - 1))"
    using n by (simp add: of_nat_diff)
  then show ?thesis
    by (simp add: js_sub_def del: of_nat_mult)
qed

lemma match_here_lits: "match_here (map Lit kw) s = prefix (map to_lower kw) (map to_lower s)"
proof (induction kw arbitrary: s)
  case Nil show ?case by simp
next
  case (Cons k kw) show ?case by (cases s) (auto simp: Cons.IH)
qed

lemma search_lits: "search (map Lit kw) s = sublist (map to_lower kw) (map to_lower s)"
  by (induction s) (auto simp: match_here_lits sublist_Cons_right)

lemma parse_ordinary: "\<forall>c\<in>set kw. ordinary c \<Longrightarrow> parse_pattern kw = Some (map Lit kw)"
  by (induction kw) (auto simp: parse_atom_def ordinary_def special_def)

lemma filter_opt_total: "\<forall>x\<in>set xs. f x = Some (g x) \<Longrightarrow> filter_opt f xs = Some (filter g xs)"
  by (induction xs) auto

section \<open>Fetching one product\<close>

text \<open>
  C4, as amended. For every request parameter that casts to an identifier,
  \<open>getProductById\<close> sends the document with that identifier when the collection has one,
  and it throws with status 404 exactly when no document of the collection has the
  identifier. For a parameter that does not cast, \<open>findById\<close> throws before the handler
  reaches its 404 branch and the cast error leaves the handler uncaught.
\<close>

theorem getProductById_found_or_404:
  "(\<forall>p. findById st (Identifier i) = Inr (Some p) \<longrightarrow>
        getProductById st (Identifier i) = Json 200 p \<and> p \<in> set st \<and> doc_id p = i) \<and>
   ((\<exists>p\<in>set st. doc_id p = i) \<longrightarrow> (\<exists>p. findById st (Identifier i) = Inr (Some p))) \<and>
   ((getProductById st (Identifier i) = Threw 404 ''Product not found'') =
      (\<forall>p\<in>set st. doc_id p \<noteq> i)) \<and>
   ((\<exists>s m. getProductById st (Identifier i) = Threw s m) = (\<forall>p\<in>set st. doc_id p \<noteq> i)) \<and>
   getProductById st (Identifier i) \<noteq> Uncaught CastError \<and>
   getProductById st Malformed = Uncaught CastError"
proof -
  let ?i = "Identifier i"
  have found: "getProductById st ?i = Json 200 p \<and> p \<in> set st \<and> doc_id p = i"
    if "findById st ?i = Inr (Some p)" for p
    using that findById_found [OF that] findById_mem [OF that]
    by (simp add: getProductById_def)
  have some: "\<exists>p. findById st ?i = Inr (Some p)" if "\<exists>p\<in>set st. doc_id p = i"
    using that findById_None [of st i] by (cases "find (\<lambda>p. doc_id p = i) st") auto
  have none: "(getProductById st ?i = Threw s m) =
              (s = 404 \<and> m = ''Product not found'' \<and> (\<forall>p\<in>set st. doc_id p \<noteq> i))" for s m
    using findById_None [of st i]
    by (cases "find (\<lambda>p. doc_id p = i) st") (auto simp: getProductById_def)
  have c1: "\<forall>p. findById st ?i = Inr (Some p) \<longrightarrow>
        getProductById st ?i = Json 200 p \<and> p \<in> set st \<and> doc_id p = i"
  proof (intro allI impI)
    fix p assume "findById st ?i = Inr (Some p)"
    then show "getProductById st ?i = Json 200 p \<and> p \<in> set st \<and> doc_id p = i"
      by (rule found)
  qed
  have c2: "(\<exists>p\<in>set st. doc_id p = i) \<longrightarrow> (\<exists>p. findById st ?i = Inr (Some p))"
  proof
    assume "\<exists>p\<in>set st. doc_id p = i"
    then show "\<exists>p. findById st ?i = Inr (Some p)" by (rule some)
  qed
  have c3: "(getProductById st ?i = Threw 404 ''Product not found'') =
      (\<forall>p\<in>set st. doc_id p \<noteq> i)"
    by (simp add: none)
  have c4: "(\<exists>s m. getProductById st ?i = Threw s m) = (\<forall>p\<in>set st. doc_id p \<noteq> i)"
    by (simp add: none)
  have c5: "getProductById st ?i \<noteq> Uncaught CastError"
    by (cases "find (\<lambda>p. doc_id p = i) st") (simp_all add: getProductById_def)
  have c6: "getProductById st Malformed = Uncaught CastError"
    by (simp add: getProductById_def)
  from c1 c2 c3 c4 c5 c6 show ?thesis by (intro conjI)
qed

theorem getProductById_found_or_404_witness:
  "getProductById [shoe, hat] (Identifier (ObjectId 2)) = Json 200 hat \<and>
   getProductById [shoe, hat] (Identifier (ObjectId 3)) = Threw 404 ''Product not found''"
proof -
  have h: "findById [shoe, hat] (Identifier (ObjectId 2)) = Inr (Some hat)"
    by (simp add: shoe_def hat_def item_def)
  have n: "\<forall>p\<in>set [shoe, hat]. doc_id p \<noteq> ObjectId 3"
    by (simp add: shoe_def hat_def item_def)
  note two = getProductById_found_or_404 [of "[shoe, hat]" "ObjectId 2"]
  note three = getProductById_found_or_404 [of "[shoe, hat]" "ObjectId 3"]
  from two [THEN conjunct1, THEN spec, THEN mp, OF h]
  have a: "getProductById [shoe, hat] (Identifier (ObjectId 2)) = Json 200 hat"
    by (rule conjunct1)
  from three [THEN conjunct2, THEN conjunct2, THEN conjunct1] n
  have b: "getProductById [shoe, hat] (Identifier (ObjectId 3)) =
           Threw 404 ''Product not found''" by (rule iffD2)
  from a b show ?thesis by (rule conjI)
qed

theorem getProductById_malformed_counterexample:
  "\<not> list_ex (id_matches Malformed) [shoe, hat] \<and>
   getProductById [shoe, hat] Malformed = Uncaught CastError \<and>
   getProductById [shoe, hat] Malformed \<noteq> Threw 404 ''Product not found''"
  by (simp add: getProductById_def)

section \<open>Updating a product\<close>

text \<open>
  C6. For an existing product, \<open>updateProduct\<close> stores the body's \<open>name\<close>, \<open>price\<close>,
  \<open>description\<close>, \<open>image\<close>, \<open>brand\<close> and \<open>countInStock\<close> whatever they are (the body is
  arbitrary, so \<open>undefined\<close> is stored too), and keeps the stored \<open>category\<close> whatever
  category the body carries.
\<close>

theorem updateProduct_overwrites:
  assumes "findById st i = Inr (Some p)"
  shows "\<exists>p'. updateProduct st i body = (Json 200 p', save p' st) \<and>
              findById (save p' st) i = Inr (Some p') \<and>
              name p' = body_name body \<and> price p' = body_price body \<and>
              description p' = body_description body \<and> image_field p' = body_image body \<and>
              brand p' = body_brand body \<and> countInStock p' = body_countInStock body \<and>
              category p' = category p"
proof -
  let ?p = "p\<lparr>name := body_name body, price := body_price body,
              description := body_description body, image_field := body_image body,
              brand := body_brand body, countInStock := body_countInStock body\<rparr>"
  have run: "updateProduct st i body = (Json 200 ?p, save ?p st)"
    using assms by (simp add: updateProduct_def Let_def)
  have "findById (save ?p st) i = Inr (Some ?p)"
    by (rule findById_saved [OF assms]) simp
  with run show ?thesis by simp
qed

theorem updateProduct_overwrites_witness:
  "findById [shoe, hat] (Identifier (ObjectId 1)) = Inr (Some shoe) \<and>
   (\<exists>p'. updateProduct [shoe, hat] (Identifier (ObjectId 1)) sample_update = (Json 200 p', [p', hat]) \<and>
      name p' = JUndefined \<and> price p' = JNum (Fin 12) \<and>
      category p' = JStr ''Sample category'')"
proof -
  have h: "findById [shoe, hat] (Identifier (ObjectId 1)) = Inr (Some shoe)"
    by (simp add: shoe_def item_def)
  have s: "save p' [shoe, hat] = [p', hat]" if "doc_id p' = ObjectId 1" for p'
    using that by (simp add: shoe_def item_def)
  from updateProduct_overwrites [OF h, of sample_update]
  obtain p' where p': "updateProduct [shoe, hat] (Identifier (ObjectId 1)) sample_update = (Json 200 p', save p' [shoe, hat])"
     "findById (save p' [shoe, hat]) (Identifier (ObjectId 1)) = Inr (Some p')"
     "name p' = body_name sample_update" "price p' = body_price sample_update" "category p' = category shoe"
    by blast
  from findById_found [OF p'(2)] have "doc_id p' = ObjectId 1" by simp
  with p' s h show ?thesis
    by (auto simp: sample_update_def shoe_def item_def)
qed

text \<open>
  C10. For an existing product, \<open>updateProduct\<close> leaves the identifier, the owner, the
  reviews, \<open>numReviews\<close> and \<open>rating\<close> of the product as they were.
\<close>

theorem updateProduct_frame:
  assumes "findById st i = Inr (Some p)"
  shows "\<exists>p'. updateProduct st i body = (Json 200 p', save p' st) \<and>
              findById (save p' st) i = Inr (Some p') \<and>
              doc_id p' = doc_id p \<and> user p' = user p \<and> reviews p' = reviews p \<and>
              numReviews p' = numReviews p \<and> rating p' = rating p"
proof -
  let ?p = "p\<lparr>name := body_name body, price := body_price body,
              description := body_description body, image_field := body_image body,
              brand := body_brand body, countInStock := body_countInStock body\<rparr>"
  have run: "updateProduct st i body = (Json 200 ?p, save ?p st)"
    using assms by (simp add: updateProduct_def Let_def)
  have "findById (save ?p st) i = Inr (Some ?p)"
    by (rule findById_saved [OF assms]) simp
  with run show ?thesis by simp
qed

theorem updateProduct_frame_witness:
  "findById [shoe, hat] (Identifier (ObjectId 2)) = Inr (Some hat) \<and>
   (\<exists>p'. updateProduct [shoe, hat] (Identifier (ObjectId 2)) sample_update = (Json 200 p', [shoe, p']) \<and>
      doc_id p' = ObjectId 2 \<and> user p' = ObjectId 0xAD \<and>
      reviews p' = [opinion ''ann'' 0xA1 4, opinion ''bob'' 0xB0 5] \<and>
      numReviews p' = 2 \<and> rating p' = Fin (9 / 2))"
proof -
  have h: "findById [shoe, hat] (Identifier (ObjectId 2)) = Inr (Some hat)"
    by (simp add: shoe_def hat_def item_def)
  have s: "save p' [shoe, hat] = [shoe, p']" if "doc_id p' = ObjectId 2" for p'
    using that by (simp add: shoe_def hat_def item_def)
  from updateProduct_frame [OF h, of sample_update]
  obtain p' where p': "updateProduct [shoe, hat] (Identifier (ObjectId 2)) sample_update = (Json 200 p', save p' [shoe, hat])"
     "doc_id p' = doc_id hat" "user p' = user hat" "reviews p' = reviews hat"
     "numReviews p' = numReviews hat" "rating p' = rating hat"
    by blast
  from p'(2) have "doc_id p' = ObjectId 2" by (simp add: hat_def item_def)
  with p' s h show ?thesis
    by (auto simp: hat_def item_def)
qed

section \<open>Reviews\<close>

text \<open>
  C3. When the user already has a review on the product, \<open>createProductReview\<close> throws
  \<open>Product already reviewed\<close> with status 400 and the collection is the one before the
  call: the product, with its reviews, \<open>numReviews\<close> and \<open>rating\<close>, is unchanged.
\<close>

theorem duplicate_review_rejected:
  assumes "findById st i = Inr (Some p)"
    and "\<exists>r\<in>set (reviews p). review_user r = user_id usr"
  shows "createProductReview st i usr body = (Threw 400 ''Product already reviewed'', st) \<and>
         findById (snd (createProductReview st i usr body)) i = Inr (Some p)"
proof -
  from assms(2) obtain r where r: "r \<in> set (reviews p)" "review_user r = user_id usr"
    by blast
  then have "find (\<lambda>r. toString (review_user r) = toString (user_id usr)) (reviews p) \<noteq> None"
    by (auto simp: find_None_iff)
  then obtain a where
    "find (\<lambda>r. toString (review_user r) = toString (user_id usr)) (reviews p) = Some a"
    by blast
  with assms(1) show ?thesis
    by (simp add: createProductReview_def)
qed

theorem duplicate_review_rejected_witness:
  "createProductReview [shoe, hat] (Identifier (ObjectId 2))
     \<lparr>user_id = ObjectId 0xB0, user_name = ''bob''\<rparr>
     \<lparr>body_rating = JNum (Fin 1), body_comment = JStr ''again''\<rparr>
   = (Threw 400 ''Product already reviewed'', [shoe, hat])"
proof -
  have h: "findById [shoe, hat] (Identifier (ObjectId 2)) = Inr (Some hat)"
    by (simp add: shoe_def hat_def item_def)
  have d: "\<exists>r\<in>set (reviews hat). review_user r = user_id \<lparr>user_id = ObjectId 0xB0, user_name = ''bob''\<rparr>"
    by (simp add: hat_def item_def opinion_def)
  from duplicate_review_rejected [OF h d] show ?thesis by simp
qed

lemma find_user_None:
  "\<forall>r\<in>set rs. review_user r \<noteq> u \<Longrightarrow>
   find (\<lambda>r. toString (review_user r) = toString u) rs = None"
  by (auto simp: find_None_iff dest: toString_inj)

lemma createProductReview_accepts:
  assumes "findById st i = Inr (Some p)"
    and "find (\<lambda>r. toString (review_user r) = toString (user_id usr)) (reviews p) = None"
  shows "createProductReview st i usr body =
     (Json 201 ''Review added'',
      save (p\<lparr>reviews := reviews p @ [\<lparr>review_name = user_name usr,
                   review_rating = Number (body_rating body),
                   review_comment = body_comment body,
                   review_user = user_id usr\<rparr>],
              numReviews := Suc (length (reviews p)),
              rating := js_div (reduce_ratings (reviews p @ [\<lparr>review_name = user_name usr,
                   review_rating = Number (body_rating body),
                   review_comment = body_comment body,
                   review_user = user_id usr\<rparr>])) (Fin (of_nat (Suc (length (reviews p)))))\<rparr>) st)"
  using assms by (simp add: createProductReview_def Let_def)

lemma createProductReview_cases:
  assumes "createProductReview st i usr body = (Json s m, st')"
  shows "\<exists>p. findById st i = Inr (Some p) \<and>
     find (\<lambda>r. toString (review_user r) = toString (user_id usr)) (reviews p) = None"
  using assms
  by (auto simp: createProductReview_def split: option.splits sum.splits)

text \<open>
  C9. The rating of the body is coerced with \<open>Number\<close> and not checked against any
  range: whatever the body's rating, when the product exists and the user has no review on
  it the call succeeds with status 201, the review with the coerced rating is appended, and
  the coerced rating is a summand of the new mean.
\<close>

theorem createProductReview_unvalidated_rating:
  assumes "findById st i = Inr (Some p)"
    and "\<forall>r\<in>set (reviews p). review_user r \<noteq> user_id usr"
  shows "\<exists>p'. createProductReview st i usr body = (Json 201 ''Review added'', save p' st) \<and>
           findById (save p' st) i = Inr (Some p') \<and>
           reviews p' = reviews p @ [\<lparr>review_name = user_name usr,
                                       review_rating = Number (body_rating body),
                                       review_comment = body_comment body,
                                       review_user = user_id usr\<rparr>] \<and>
           rating p' = js_div (js_add (Number (body_rating body)) (sum_ratings (reviews p)))
                              (Fin (of_nat (length (reviews p) + 1)))"
proof -
  let ?r = "\<lparr>review_name = user_name usr, review_rating = Number (body_rating body),
             review_comment = body_comment body, review_user = user_id usr\<rparr>"
  let ?p = "p\<lparr>reviews := reviews p @ [?r], numReviews := Suc (length (reviews p)),
              rating := js_div (reduce_ratings (reviews p @ [?r]))
                               (Fin (of_nat (Suc (length (reviews p)))))\<rparr>"
  have none: "find (\<lambda>r. toString (review_user r) = toString (user_id usr)) (reviews p) = None"
    using assms(2) by (rule find_user_None)
  have run: "createProductReview st i usr body = (Json 201 ''Review added'', save ?p st)"
    using createProductReview_accepts [OF assms(1) none] .
  have stored: "findById (save ?p st) i = Inr (Some ?p)"
    by (rule findById_saved [OF assms(1)]) simp
  have mean: "rating ?p = js_div (js_add (Number (body_rating body)) (sum_ratings (reviews p)))
                              (Fin (of_nat (length (reviews p) + 1)))"
    by (simp add: reduce_ratings_sum sum_ratings_append)
  have revs: "reviews ?p = reviews p @ [?r]" by simp
  from run stored revs mean show ?thesis by blast
qed

theorem createProductReview_unvalidated_rating_witness:
  "\<exists>p'. createProductReview [shoe, hat] (Identifier (ObjectId 1))
            \<lparr>user_id = ObjectId 0xC1, user_name = ''Cy''\<rparr>
            \<lparr>body_rating = JStr ''-7.5'', body_comment = JNull\<rparr>
          = (Json 201 ''Review added'', [p', hat]) \<and>
        reviews p' = [\<lparr>review_name = ''Cy'', review_rating = Fin (- 15 / 2),
                        review_comment = JNull, review_user = ObjectId 0xC1\<rparr>] \<and>
        rating p' = Fin (- 15 / 2)"
proof -
  let ?u = "\<lparr>user_id = ObjectId 0xC1, user_name = ''Cy''\<rparr>"
  let ?b = "\<lparr>body_rating = JStr ''-7.5'', body_comment = JNull\<rparr>"
  have h: "findById [shoe, hat] (Identifier (ObjectId 1)) = Inr (Some shoe)"
    by (simp add: shoe_def item_def)
  have d: "\<forall>r\<in>set (reviews shoe). review_user r \<noteq> user_id ?u"
    by (simp add: shoe_def item_def)
  have n: "Number (body_rating ?b) = Fin (- 15 / 2)"
    by code_simp
  from createProductReview_unvalidated_rating [OF h d, of ?b]
  obtain p' where p': "createProductReview [shoe, hat] (Identifier (ObjectId 1)) ?u ?b
            = (Json 201 ''Review added'', save p' [shoe, hat])"
     "findById (save p' [shoe, hat]) (Identifier (ObjectId 1)) = Inr (Some p')"
     "reviews p' = reviews shoe @ [\<lparr>review_name = user_name ?u,
                                       review_rating = Number (body_rating ?b),
                                       review_comment = body_comment ?b,
                                       review_user = user_id ?u\<rparr>]"
     "rating p' = js_div (js_add (Number (body_rating ?b)) (sum_ratings (reviews shoe)))
                              (Fin (of_nat (length (reviews shoe) + 1)))"
    by blast
  from findById_found [OF p'(2)] have i: "doc_id p' = ObjectId 1" by simp
  have s: "save p' [shoe, hat] = [p', hat]"
    using i by (simp add: shoe_def item_def)
  have r: "reviews shoe = []" by (simp add: shoe_def item_def)
  from p'(1) s have a: "createProductReview [shoe, hat] (Identifier (ObjectId 1)) ?u ?b
            = (Json 201 ''Review added'', [p', hat])" by simp
  from p'(3) r n have b: "reviews p' = [\<lparr>review_name = ''Cy'', review_rating = Fin (- 15 / 2),
                        review_comment = JNull, review_user = ObjectId 0xC1\<rparr>]" by simp
  from p'(4) r n have c: "rating p' = Fin (- 15 / 2)" by simp
  from a b c show ?thesis by blast
qed

text \<open>
  C2. After every successful \<open>createProductReview\<close>, the stored product has \<open>numReviews\<close>
  equal to the length of its reviews and \<open>rating\<close> equal to the sum of the ratings of all
  its reviews divided by their number; the mean depends on the list of reviews alone.
\<close>

theorem createProductReview_recomputes:
  assumes "createProductReview st i usr body = (Json s m, st')"
  shows "\<exists>p'. findById st' i = Inr (Some p') \<and>
           numReviews p' = length (reviews p') \<and>
           rating p' = mean_rating (reviews p')"
proof -
  from createProductReview_cases [OF assms] obtain p where
    p: "findById st i = Inr (Some p)"
    and none: "find (\<lambda>r. toString (review_user r) = toString (user_id usr)) (reviews p) = None"
    by blast
  let ?r = "\<lparr>review_name = user_name usr, review_rating = Number (body_rating body),
             review_comment = body_comment body, review_user = user_id usr\<rparr>"
  let ?p = "p\<lparr>reviews := reviews p @ [?r], numReviews := Suc (length (reviews p)),
              rating := js_div (reduce_ratings (reviews p @ [?r]))
                               (Fin (of_nat (Suc (length (reviews p)))))\<rparr>"
  from createProductReview_accepts [OF p none, of body] assms
  have st': "st' = save ?p st" by simp
  have stored: "findById (save ?p st) i = Inr (Some ?p)"
    by (rule findById_saved [OF p]) simp
  have n: "numReviews ?p = length (reviews ?p)" by simp
  have m: "rating ?p = mean_rating (reviews ?p)"
    by (simp add: mean_rating_def reduce_ratings_sum)
  from stored n m st' show ?thesis by blast
qed

theorem createProductReview_recomputes_witness:
  "\<exists>p'. findById (snd (createProductReview [shoe, hat] (Identifier (ObjectId 2))
            \<lparr>user_id = ObjectId 0xC1, user_name = ''Cy''\<rparr>
            \<lparr>body_rating = JNum (Fin 3), body_comment = JStr ''so-so''\<rparr>)) (Identifier (ObjectId 2)) = Inr (Some p') \<and>
        numReviews p' = 3 \<and> rating p' = Fin 4"
proof -
  let ?u = "\<lparr>user_id = ObjectId 0xC1, user_name = ''Cy''\<rparr>"
  let ?b = "\<lparr>body_rating = JNum (Fin 3), body_comment = JStr ''so-so''\<rparr>"
  let ?run = "createProductReview [shoe, hat] (Identifier (ObjectId 2)) ?u ?b"
  have h: "findById [shoe, hat] (Identifier (ObjectId 2)) = Inr (Some hat)"
    by (simp add: shoe_def hat_def item_def)
  have none: "find (\<lambda>r. toString (review_user r) = toString (user_id ?u)) (reviews hat) = None"
    by (rule find_user_None) (simp add: hat_def item_def opinion_def)
  note acc = createProductReview_accepts [OF h none, of ?b]
  have ok: "?run = (Json 201 ''Review added'', snd ?run)"
    by (simp add: acc)
  have revs: "reviews q = [opinion ''ann'' 0xA1 4, opinion ''bob'' 0xB0 5,
       \<lparr>review_name = ''Cy'', review_rating = Fin 3, review_comment = JStr ''so-so'',
        review_user = ObjectId 0xC1\<rparr>]"
    if "findById (snd ?run) (Identifier (ObjectId 2)) = Inr (Some q)" for q
  proof -
    let ?P = "hat\<lparr>reviews := reviews hat @ [\<lparr>review_name = user_name ?u,
                   review_rating = Number (body_rating ?b),
                   review_comment = body_comment ?b,
                   review_user = user_id ?u\<rparr>],
              numReviews := Suc (length (reviews hat)),
              rating := js_div (reduce_ratings (reviews hat @ [\<lparr>review_name = user_name ?u,
                   review_rating = Number (body_rating ?b),
                   review_comment = body_comment ?b,
                   review_user = user_id ?u\<rparr>])) (Fin (of_nat (Suc (length (reviews hat)))))\<rparr>"
    have i: "doc_id ?P = ObjectId 2" by (simp add: hat_def item_def)
    have "findById (save ?P [shoe, hat]) (Identifier (doc_id ?P)) = Inr (Some ?P)"
      by (rule findById_save)
    then have "findById (snd ?run) (Identifier (ObjectId 2)) = Inr (Some ?P)"
      unfolding acc snd_conv i .
    with that have "q = ?P" by simp
    then show ?thesis by (simp add: hat_def item_def)
  qed
  from createProductReview_recomputes [OF ok]
  obtain p' where p': "findById (snd ?run) (Identifier (ObjectId 2)) = Inr (Some p')"
    "numReviews p' = length (reviews p')" "rating p' = mean_rating (reviews p')"
    by blast
  from revs [OF p'(1)] p'(2) have a: "numReviews p' = 3" by simp
  from revs [OF p'(1)] p'(3) have b: "rating p' = Fin 4"
    by (simp add: mean_rating_def opinion_def)
  from p'(1) a b show ?thesis by blast
qed

section \<open>Listing products\<close>

lemma getProducts_run:
  assumes "page_of (pageNumber q) = Fin (of_nat n)" and "1 \<le> n"
    and "Product_find (keyword_filter (keyword q)) st = Some ms"
  shows "getProducts st q = Some (Json 200
           \<lparr>products = take 10 (drop ((n - 1) * 10) ms),
            page = Fin (of_nat n),
            pages = Fin (of_nat ((length ms + 9) div 10))\<rparr>)"
proof -
  have skip: "cursor_skip (js_mul (Fin (of_nat pageSize)) (js_sub (Fin (of_nat n)) (Fin 1))) ms
              = Some (drop (pageSize * (n - 1)) ms)"
    unfolding cursor_skip_def skip_page [OF assms(2)] by simp
  have ten: "pageSize = 10" by (simp add: pageSize_def)
  have pg: "Math_ceil (js_div (Fin (of_nat (length ms))) (Fin (of_nat pageSize)))
            = Fin (of_nat ((length ms + 9) div 10))"
    by (simp add: ten ceiling_tenth)
  show ?thesis
    unfolding getProducts_def Let_def Product_count_def assms(1) assms(3)
    by (simp only: option.simps option.map skip pg) (simp add: ten mult.commute)
qed

lemma getProducts_page:
  assumes "getProducts st q = Some (Json s r)"
  shows "page r = page_of (pageNumber q)"
proof -
  let ?f = "keyword_filter (keyword q)"
  let ?k = "js_mul (Fin (of_nat pageSize)) (js_sub (page_of (pageNumber q)) (Fin 1))"
  from assms obtain c where c: "Product_count ?f st = Some c"
    unfolding getProducts_def Let_def by (cases "Product_count ?f st") simp_all
  from assms c obtain docs where d: "Product_find ?f st = Some docs"
    unfolding getProducts_def Let_def by (cases "Product_find ?f st") simp_all
  from assms c d obtain rest where "cursor_skip ?k docs = Some rest"
    unfolding getProducts_def Let_def by (cases "cursor_skip ?k docs") simp_all
  with assms c d show ?thesis
    unfolding getProducts_def Let_def by (simp del: js_mul.simps) (metis listing.select_convs(2))
qed

text \<open>
  C1. For every collection and every page \<open>n \<ge> 1\<close>, \<open>getProducts\<close> sends the matches left
  after skipping \<open>(n - 1) * 10\<close> of them, cut to 10, so at most 10 products, together with
  the page and \<open>pages\<close>, the ceiling of the number of matches divided by 10. With no match
  it sends the empty list and \<open>pages = 0\<close>, not an error.
\<close>

theorem getProducts_pagination:
  assumes "page_of (pageNumber q) = Fin (of_nat n)" and "1 \<le> n"
    and "Product_find (keyword_filter (keyword q)) st = Some ms"
  shows "getProducts st q = Some (Json 200
           \<lparr>products = take 10 (drop ((n - 1) * 10) ms),
            page = Fin (of_nat n),
            pages = Fin (of_int \<lceil>(of_nat (length ms) :: rat) / 10\<rceil>)\<rparr>) \<and>
         length (take 10 (drop ((n - 1) * 10) ms)) \<le> 10 \<and>
         \<lceil>(of_nat (length ms) :: rat) / 10\<rceil> = int ((length ms + 9) div 10) \<and>
         (ms = [] \<longrightarrow> getProducts st q = Some (Json 200
           \<lparr>products = [], page = Fin (of_nat n), pages = Fin 0\<rparr>))"
proof -
  note run = getProducts_run [OF assms]
  have empty: "getProducts st q = Some (Json 200
           \<lparr>products = [], page = Fin (of_nat n), pages = Fin 0\<rparr>)" if "ms = []"
    using run that by simp
  have ceil: "\<lceil>(of_nat (length ms) :: rat) / 10\<rceil> = int ((length ms + 9) div 10)"
    by (rule ceiling_tenth)
  have "(of_int \<lceil>(of_nat (length ms) :: rat) / 10\<rceil> :: rat) = of_nat ((length ms + 9) div 10)"
    unfolding ceil by simp
  with run empty ceil show ?thesis
    by simp
qed

lemma length_shirts: "length shirts = 25"
  by (simp add: shirts_def)

theorem getProducts_pagination_witness:
  "getProducts shirts \<lparr>pageNumber = JStr ''3'', keyword = JUndefined\<rparr> =
     Some (Json 200 \<lparr>products = drop 20 shirts, page = Fin 3, pages = Fin 3\<rparr>) \<and>
   length (drop 20 shirts) = 5"
proof -
  let ?q = "\<lparr>pageNumber = JStr ''3'', keyword = JUndefined\<rparr>"
  have p: "page_of (pageNumber ?q) = Fin (of_nat 3)" by code_simp
  have f: "Product_find (keyword_filter (keyword ?q)) shirts = Some shirts"
    by (simp add: keyword_filter_def)
  have n: "(1::nat) \<le> 3" by simp
  from getProducts_pagination [OF p n f]
  show ?thesis by (simp add: length_shirts)
qed

lemma name_contains_item:
  "name_contains kw (item i n r) = sublist (map to_lower kw) (map to_lower n)"
  by (simp add: name_contains_def item_def)

lemma name_contains_item_reviews:
  "name_contains kw (item i n r\<lparr>reviews := rs, numReviews := k\<rparr>) =
     sublist (map to_lower kw) (map to_lower n)"
  by (simp add: name_contains_def item_def)

lemma name_matches_ordinary:
  assumes "\<not> is_object (name p)"
  shows "name_matches (map Lit kw) p = Some (name_contains kw p)"
proof (cases "name p")
  case (JStr s)
  have "AnyChar \<notin> set (map Lit kw)" by auto
  then show ?thesis
    by (simp add: JStr name_contains_def regex_test_def search_lits)
next
  case (JObj s)
  with assms show ?thesis by (simp add: is_object_def)
qed (simp_all add: name_contains_def)

lemma Product_find_ordinary:
  assumes "kw \<noteq> []" and "\<forall>c\<in>set kw. ordinary c" and "\<forall>p\<in>set st. \<not> is_object (name p)"
  shows "Product_find (keyword_filter (JStr kw)) st = Some (filter (name_contains kw) st)"
proof -
  have "filter_opt (name_matches (map Lit kw)) st = Some (filter (name_contains kw) st)"
    using assms(3) by (intro filter_opt_total) (simp add: name_matches_ordinary del: name_matches.simps)
  then show ?thesis
    using assms(1) by (simp add: keyword_filter_def parse_ordinary [OF assms(2)])
qed

text \<open>
  C5, as amended. For a non-empty keyword made of ordinary characters only, \<open>getProducts\<close>
  sends the page of exactly the products whose name contains the keyword as a
  case-insensitive substring; with the keyword absent or empty, no name filter is applied
  and the page is cut from the whole collection. A keyword with a character of special
  meaning is a pattern, not a literal: the keyword \<open>.\<close> selects a product whose name has
  no dot, as the example after the theorem shows.
\<close>

theorem getProducts_keyword:
  assumes "page_of (pageNumber q) = Fin (of_nat n)" and "1 \<le> n"
    and "\<forall>p\<in>set st. \<not> is_object (name p)"
  shows "(keyword q = JStr kw \<and> kw \<noteq> [] \<and> (\<forall>c\<in>set kw. ordinary c) \<longrightarrow>
            (\<exists>r s. getProducts st q = Some (Json s r) \<and>
                 products r = take 10 (drop ((n - 1) * 10) (filter (name_contains kw) st)) \<and>
                 (\<forall>p\<in>set (products r). p \<in> set st \<and> name_contains kw p))) \<and>
         (keyword q = JUndefined \<or> keyword q = JStr [] \<longrightarrow>
            (\<exists>r s. getProducts st q = Some (Json s r) \<and>
                 products r = take 10 (drop ((n - 1) * 10) st)))"
proof (intro conjI impI)
  assume k: "keyword q = JStr kw \<and> kw \<noteq> [] \<and> (\<forall>c\<in>set kw. ordinary c)"
  let ?ms = "filter (name_contains kw) st"
  let ?r = "\<lparr>products = take 10 (drop ((n - 1) * 10) ?ms), page = Fin (of_nat n),
            pages = Fin (of_nat ((length ?ms + 9) div 10))\<rparr>"
  from k have kq: "keyword q = JStr kw" and ne: "kw \<noteq> []" and ord: "\<forall>c\<in>set kw. ordinary c"
    by simp_all
  have f: "Product_find (keyword_filter (keyword q)) st = Some ?ms"
    unfolding kq by (rule Product_find_ordinary [OF ne ord assms(3)])
  have run: "getProducts st q = Some (Json 200 ?r)"
    by (rule getProducts_run [OF assms(1,2) f])
  have sub: "\<forall>p\<in>set (products ?r). p \<in> set st \<and> name_contains kw p"
  proof
    fix p assume "p \<in> set (products ?r)"
    then have "p \<in> set (take 10 (drop ((n - 1) * 10) ?ms))" by simp
    then have "p \<in> set ?ms" by (meson in_set_dropD in_set_takeD)
    then show "p \<in> set st \<and> name_contains kw p" by simp
  qed
  have pr: "products ?r = take 10 (drop ((n - 1) * 10) ?ms)" by simp
  from run pr sub
  show "\<exists>r s. getProducts st q = Some (Json s r) \<and>
                 products r = take 10 (drop ((n - 1) * 10) ?ms) \<and>
                 (\<forall>p\<in>set (products r). p \<in> set st \<and> name_contains kw p)"
    by (intro exI [of _ ?r] exI [of _ 200] conjI)
next
  assume k: "keyword q = JUndefined \<or> keyword q = JStr []"
  let ?r = "\<lparr>products = take 10 (drop ((n - 1) * 10) st), page = Fin (of_nat n),
            pages = Fin (of_nat ((length st + 9) div 10))\<rparr>"
  from k have "keyword_filter (keyword q) = MatchAll"
    by (auto simp: keyword_filter_def)
  then have f: "Product_find (keyword_filter (keyword q)) st = Some st"
    by simp
  have run: "getProducts st q = Some (Json 200 ?r)"
    by (rule getProducts_run [OF assms(1,2) f])
  have pr: "products ?r = take 10 (drop ((n - 1) * 10) st)" by simp
  from run pr
  show "\<exists>r s. getProducts st q = Some (Json s r) \<and>
                 products r = take 10 (drop ((n - 1) * 10) st)"
    by (intro exI [of _ ?r] exI [of _ 200] conjI)
qed

theorem getProducts_keyword_witness:
  "(\<exists>r s. getProducts [shoe, hat] \<lparr>pageNumber = JUndefined, keyword = JStr ''sHo''\<rparr> = Some (Json s r) \<and>
       products r = [shoe]) \<and>
   (\<exists>r s. getProducts [shoe, hat] \<lparr>pageNumber = JUndefined, keyword = JStr []\<rparr> = Some (Json s r) \<and>
       products r = [shoe, hat])"
proof -
  let ?q = "\<lparr>pageNumber = JUndefined, keyword = JStr ''sHo''\<rparr>"
  let ?e = "\<lparr>pageNumber = JUndefined, keyword = JStr []\<rparr>"
  have p: "page_of (pageNumber ?q) = Fin (of_nat 1)"
    by (simp add: page_of_def Let_def)
  have pe: "page_of (pageNumber ?e) = Fin (of_nat 1)"
    by (simp add: page_of_def Let_def)
  have n: "(1::nat) \<le> 1" by simp
  have o: "\<forall>p\<in>set [shoe, hat]. \<not> is_object (name p)"
    by (simp add: shoe_def hat_def item_def is_object_def)
  have k: "keyword ?q = JStr ''sHo'' \<and> ''sHo'' \<noteq> [] \<and> (\<forall>c\<in>set ''sHo''. ordinary c)"
    by (simp add: ordinary_def special_def)
  have s1: "sublist (map to_lower ''sHo'') (map to_lower ''Shoe'')" by code_simp
  have s2: "\<not> sublist (map to_lower ''sHo'') (map to_lower ''Hat'')" by code_simp
  have c1: "name_contains ''sHo'' shoe"
    unfolding shoe_def name_contains_item by (rule s1)
  have c2: "\<not> name_contains ''sHo'' hat"
    unfolding hat_def name_contains_item_reviews by (rule s2)
  have c: "filter (name_contains ''sHo'') [shoe, hat] = [shoe]"
    using c1 c2 by simp
  note both = getProducts_keyword [OF p n o, of "''sHo''"]
  from both [THEN conjunct1, THEN mp, OF k]
  obtain r s where r: "getProducts [shoe, hat] ?q = Some (Json s r)"
    "products r = take 10 (drop ((1 - 1) * 10) (filter (name_contains ''sHo'') [shoe, hat]))"
    by (elim exE conjE)
  from r(2) have "products r = [shoe]" unfolding c by simp
  with r(1) have a: "\<exists>r s. getProducts [shoe, hat] ?q = Some (Json s r) \<and> products r = [shoe]"
    by (intro exI conjI)
  have ke: "keyword ?e = JUndefined \<or> keyword ?e = JStr []" by simp
  from getProducts_keyword [OF pe n o, of "''sHo''", THEN conjunct2, THEN mp, OF ke]
  have b: "\<exists>r s. getProducts [shoe, hat] ?e = Some (Json s r) \<and> products r = [shoe, hat]"
    by simp
  from a b show ?thesis by (rule conjI)
qed

theorem getProducts_keyword_counterexample:
  "getProducts [shoe] \<lparr>pageNumber = JUndefined, keyword = JStr ''.''\<rparr> =
     Some (Json 200 \<lparr>products = [shoe], page = Fin 1, pages = Fin 1\<rparr>) \<and>
   name shoe = JStr ''Shoe'' \<and> \<not> name_contains ''.'' shoe"
proof -
  let ?q = "\<lparr>pageNumber = JUndefined, keyword = JStr ''.''\<rparr>"
  have pp: "parse_pattern ''.'' = Some [AnyChar]" by code_simp
  have m: "regex_test [AnyChar] ''Shoe'' = Some True" by code_simp
  have nm: "name shoe = JStr ''Shoe''" by (simp add: shoe_def item_def)
  have f: "Product_find (keyword_filter (keyword ?q)) [shoe] = Some [shoe]"
    by (simp add: keyword_filter_def pp nm m del: parse_pattern.simps)
  have p: "page_of (pageNumber ?q) = Fin (of_nat 1)"
    by (simp add: page_of_def Let_def)
  have run: "getProducts [shoe] ?q =
     Some (Json 200 \<lparr>products = [shoe], page = Fin 1, pages = Fin 1\<rparr>)"
    using getProducts_run [OF p _ f] by simp
  have nc: "\<not> sublist (map to_lower ''.'') (map to_lower ''Shoe'')" by code_simp
  have "\<not> name_contains ''.'' shoe"
    unfolding shoe_def name_contains_item by (rule nc)
  with run nm show ?thesis by (intro conjI)
qed

text \<open>
  C8, as amended. The page is the query parameter coerced with \<open>Number\<close> when that number
  is neither \<open>NaN\<close> nor zero, and 1 otherwise: when the parameter is absent or not numeric,
  and also when it coerces to zero, as the parameter \<open>0\<close> does. It is the page that the
  response carries.
\<close>

theorem page_of_default:
  "page_of v = (if Number v = NaN \<or> Number v = Fin 0 then Fin 1 else Number v) \<and>
   (getProducts st q = Some (Json s r) \<longrightarrow> page r = page_of (pageNumber q))"
proof -
  have a: "page_of v = (if Number v = NaN \<or> Number v = Fin 0 then Fin 1 else Number v)"
    by (simp add: page_of_def)
  have b: "page r = page_of (pageNumber q)" if "getProducts st q = Some (Json s r)"
    using that by (rule getProducts_page)
  from a b show ?thesis by simp
qed

theorem page_of_default_witness:
  "page_of (JStr ''2'') = Fin 2 \<and> page_of (JStr ''page'') = Fin 1 \<and>
   getProducts shirts \<lparr>pageNumber = JStr ''2'', keyword = JUndefined\<rparr> =
     Some (Json 200 \<lparr>products = take 10 (drop 10 shirts), page = Fin 2, pages = Fin 3\<rparr>) \<and>
   page \<lparr>products = take 10 (drop 10 shirts), page = Fin 2, pages = Fin 3\<rparr> =
     page_of (pageNumber \<lparr>pageNumber = JStr ''2'', keyword = JUndefined\<rparr>)"
proof -
  let ?q = "\<lparr>pageNumber = JStr ''2'', keyword = JUndefined\<rparr>"
  let ?r = "\<lparr>products = take 10 (drop 10 shirts), page = Fin 2, pages = Fin 3\<rparr>"
  have s2: "StringToNumber ''2'' = Fin 2" by code_simp
  have n2: "Number (JStr ''2'') = Fin 2" by (simp add: s2)
  have sp: "StringToNumber ''page'' = NaN" by code_simp
  have np: "Number (JStr ''page'') = NaN" by (simp add: sp)
  have p: "page_of (pageNumber ?q) = Fin (of_nat 2)" by (simp add: page_of_def s2 Let_def)
  have f: "Product_find (keyword_filter (keyword ?q)) shirts = Some shirts"
    by (simp add: keyword_filter_def)
  have run: "getProducts shirts ?q = Some (Json 200 ?r)"
    using getProducts_run [OF p _ f] by (simp add: length_shirts)
  from page_of_default [of "JStr ''2''"] n2 have a: "page_of (JStr ''2'') = Fin 2" by simp
  from page_of_default [of "JStr ''page''"] np have b: "page_of (JStr ''page'') = Fin 1" by simp
  from page_of_default [of _ shirts ?q 200 ?r] run
  have c: "page ?r = page_of (pageNumber ?q)" by simp
  from a b run c show ?thesis by (intro conjI)
qed

theorem page_of_default_counterexample:
  "page_of (JStr ''0'') \<noteq>
     (if JStr ''0'' = JUndefined \<or> Number (JStr ''0'') = NaN then Fin 1 else Number (JStr ''0'')) \<and>
   Number (JStr ''0'') = Fin 0 \<and> page_of (JStr ''0'') = Fin 1 \<and>
   getProducts [shoe] \<lparr>pageNumber = JStr ''0'', keyword = JUndefined\<rparr> =
     Some (Json 200 \<lparr>products = [shoe], page = Fin 1, pages = Fin 1\<rparr>)"
proof -
  have s0: "StringToNumber ''0'' = Fin 0" by code_simp
  have n: "Number (JStr ''0'') = Fin 0" by (simp add: s0)
  have p: "page_of (JStr ''0'') = Fin 1" by (simp add: page_of_def s0 Let_def)
  have f: "Product_find (keyword_filter (keyword \<lparr>pageNumber = JStr ''0'', keyword = JUndefined\<rparr>))
              [shoe] = Some [shoe]"
    by (simp add: keyword_filter_def)
  have p1: "page_of (pageNumber \<lparr>pageNumber = JStr ''0'', keyword = JUndefined\<rparr>) = Fin (of_nat 1)"
    by (simp add: p)
  have g: "getProducts [shoe] \<lparr>pageNumber = JStr ''0'', keyword = JUndefined\<rparr> =
     Some (Json 200 \<lparr>products = [shoe], page = Fin 1, pages = Fin 1\<rparr>)"
    using getProducts_run [OF p1 _ f] by simp
  from n p g show ?thesis by simp
qed

section \<open>Top rated products\<close>

lemma num_le_total: "num_le x y \<or> num_le y x"
  by (auto simp: num_le_def)

lemma num_le_trans: "num_le x y \<Longrightarrow> num_le y z \<Longrightarrow> num_le x z"
  by (auto simp: num_le_def)

lemma rating_ge_trans: "rating_ge a b \<Longrightarrow> rating_ge b c \<Longrightarrow> rating_ge a c"
  unfolding rating_ge_def by (rule num_le_trans)

lemma set_insert_desc: "set (insert_desc p qs) = insert p (set qs)"
  by (induction qs) auto

lemma mset_insert_desc: "mset (insert_desc p qs) = add_mset p (mset qs)"
  by (induction qs) auto

lemma sorted_insert_desc:
  "sorted_wrt rating_ge qs \<Longrightarrow> sorted_wrt rating_ge (insert_desc p qs)"
proof (induction qs)
  case Nil
  show ?case by simp
next
  case (Cons q qs)
  show ?case
  proof (cases "num_le (rating q) (rating p)")
    case True
    then have pq: "rating_ge p q" by (simp add: rating_ge_def)
    have "rating_ge p x" if "x \<in> set qs" for x
      using Cons.prems that pq rating_ge_trans [of p q x] by auto
    with True pq Cons.prems show ?thesis by auto
  next
    case False
    then have qp: "rating_ge q p"
      using num_le_total [of "rating q" "rating p"] by (simp add: rating_ge_def)
    with False Cons show ?thesis
      by (auto simp: set_insert_desc)
  qed
qed

lemma mset_sort_rating_desc: "mset (sort_rating_desc st) = mset st"
  by (induction st) (simp_all add: mset_insert_desc)

lemma sorted_sort_rating_desc: "sorted_wrt rating_ge (sort_rating_desc st)"
  by (induction st) (simp_all add: sorted_insert_desc)

text \<open>
  C7. \<open>getTopProducts\<close> sends 3 products, or all of them when the collection has fewer,
  in descending order of rating, and no product left out is rated above one sent.
\<close>

theorem getTopProducts_top3:
  "\<exists>r. getTopProducts st = Json 200 r \<and>
       length r = min 3 (length st) \<and>
       sorted_wrt rating_ge r \<and>
       mset r \<subseteq># mset st \<and>
       (length st < 3 \<longrightarrow> mset r = mset st) \<and>
       (\<forall>a\<in>set r. \<forall>b\<in>#(mset st - mset r). rating_ge a b)"
proof -
  let ?s = "sort_rating_desc st"
  let ?r = "take 3 ?s"
  have srt: "sorted_wrt rating_ge (?r @ drop 3 ?s)"
    using sorted_sort_rating_desc [of st] by simp
  have len: "length ?s = length st"
    using mset_sort_rating_desc [of st] by (metis size_mset)
  have split: "mset st = mset ?r + mset (drop 3 ?s)"
    by (metis append_take_drop_id mset_append mset_sort_rating_desc)
  have l: "length ?r = min 3 (length st)"
    using len by simp
  have s: "sorted_wrt rating_ge ?r"
    using srt unfolding sorted_wrt_append by simp
  have m: "mset ?r \<subseteq># mset st"
    unfolding split by simp
  have rest: "mset st - mset ?r = mset (drop 3 ?s)"
    unfolding split by simp
  have t: "\<forall>a\<in>set ?r. \<forall>b\<in>#(mset st - mset ?r). rating_ge a b"
    using srt unfolding rest sorted_wrt_append by simp
  have "getTopProducts st = Json 200 ?r"
    by (simp add: getTopProducts_def)
  moreover have "length st < 3 \<longrightarrow> mset ?r = mset st"
    using len mset_sort_rating_desc [of st] by simp
  ultimately show ?thesis
    using l s m t by (intro exI [of _ ?r] conjI)
qed

theorem getTopProducts_top3_witness:
  "getTopProducts [shoe, item 3 ''Cap'' (Fin 3), hat, item 4 ''Sock'' NaN, item 5 ''Tie'' (Fin 3)]
     = Json 200 [hat, item 3 ''Cap'' (Fin 3), item 5 ''Tie'' (Fin 3)] \<and>
   sorted_wrt rating_ge [hat, item 3 ''Cap'' (Fin 3), item 5 ''Tie'' (Fin 3)] \<and>
   rating_ge (item 5 ''Tie'' (Fin 3)) shoe \<and> rating_ge shoe (item 4 ''Sock'' NaN)"
proof -
  let ?st = "[shoe, item 3 ''Cap'' (Fin 3), hat, item 4 ''Sock'' NaN, item 5 ''Tie'' (Fin 3)]"
  let ?top = "[hat, item 3 ''Cap'' (Fin 3), item 5 ''Tie'' (Fin 3)]"
  have run: "getTopProducts ?st = Json 200 ?top"
    by (simp add: getTopProducts_def shoe_def hat_def item_def num_le_def)
  from getTopProducts_top3 [of ?st] obtain r where
    r: "getTopProducts ?st = Json 200 r" "sorted_wrt rating_ge r"
       "\<forall>a\<in>set r. \<forall>b\<in>#(mset ?st - mset r). rating_ge a b"
    by (elim exE conjE)
  from r(1) run have eq: "r = ?top" by simp
  have d: "shoe \<noteq> hat" "shoe \<noteq> item 3 ''Cap'' (Fin 3)" "shoe \<noteq> item 5 ''Tie'' (Fin 3)"
    by (simp_all add: shoe_def hat_def item_def)
  have "shoe \<in># mset ?st - mset ?top"
    using d by simp
  with r(3) eq have a: "rating_ge (item 5 ''Tie'' (Fin 3)) shoe" by simp
  have b: "rating_ge shoe (item 4 ''Sock'' NaN)"
    by (simp add: rating_ge_def num_le_def shoe_def item_def)
  from run r(2) eq a b show ?thesis by simp
qed

end
